theory Spec2Isabelle
  imports Main "HOL-Library.Word"
begin

section \<open>Strings and byte arrays\<close>

text \<open>
  A \<^verbatim>\<open>Uint8Array\<close> is a list of 8-bit words. A JavaScript string is a sequence of
  UTF-16 code units, and \<^verbatim>\<open>length\<close>, \<^verbatim>\<open>slice\<close> and \<^verbatim>\<open>startsWith\<close> count code units,
  so a string is a list of 16-bit words. \<open>str\<close> writes an ASCII literal.
\<close>

type_synonym byte = "8 word"
type_synonym bytes = "byte list"
type_synonym unit16 = "16 word"
type_synonym jsstring = "unit16 list"

definition str :: "string \<Rightarrow> jsstring" where
  "str s = map (\<lambda>c. of_nat (of_char c)) s"

definition startsWith :: "jsstring \<Rightarrow> jsstring \<Rightarrow> bool" where
  "startsWith s p = (take (length p) s = p)"

text \<open>\<^verbatim>\<open>s.slice(a, b)\<close> for indices \<open>0 \<le> a\<close>, \<open>0 \<le> b\<close>: both are clamped to the length.\<close>

definition slice :: "jsstring \<Rightarrow> nat \<Rightarrow> nat \<Rightarrow> jsstring" where
  "slice s a b = take (b - a) (drop a s)"

text \<open>\<^verbatim>\<open>s.padStart(n, c)\<close> with a one-character filler: never shortens \<open>s\<close>.\<close>

definition padStart :: "nat \<Rightarrow> unit16 \<Rightarrow> jsstring \<Rightarrow> jsstring" where
  "padStart n c s = replicate (n - length s) c @ s"

subsection \<open>Radix 16\<close>

text \<open>The digit characters \<^verbatim>\<open>0-9a-f\<close> that \<^verbatim>\<open>toString(16)\<close> emits.\<close>

definition hexDigit :: "nat \<Rightarrow> unit16" where
  "hexDigit d = (if d < 10 then of_nat (48 + d) else of_nat (87 + d))"

text \<open>
  \<^verbatim>\<open>n.toString(16)\<close> of a non-negative integer (a Number that holds an integer, or a
  BigInt): the digits without leading zeros, \<^verbatim>\<open>"0"\<close> for zero.
\<close>

fun toString16 :: "nat \<Rightarrow> jsstring" where
  "toString16 n = (if n < 16 then [hexDigit n] else toString16 (n div 16) @ [hexDigit (n mod 16)])"

declare toString16.simps [simp del]

text \<open>The value of a radix-16 digit, in either case; \<open>None\<close> for any other code unit.\<close>

definition digitValue :: "unit16 \<Rightarrow> nat option" where
  "digitValue c =
     (if 48 \<le> c \<and> c \<le> 57 then Some (unat c - 48)
      else if 97 \<le> c \<and> c \<le> 102 then Some (unat c - 87)
      else if 65 \<le> c \<and> c \<le> 70 then Some (unat c - 55)
      else None)"

definition isHexDigit :: "unit16 \<Rightarrow> bool" where
  "isHexDigit c = (digitValue c \<noteq> None)"

text \<open>The value of a digit string, most significant digit first.\<close>

definition hexValue :: "jsstring \<Rightarrow> nat" where
  "hexValue ds = foldl (\<lambda>acc c. 16 * acc + the (digitValue c)) 0 ds"

text \<open>The code units that \<^verbatim>\<open>parseInt\<close> skips at the start: WhiteSpace and LineTerminator.\<close>

definition isWhiteSpace :: "unit16 \<Rightarrow> bool" where
  "isWhiteSpace c =
     (c \<in> {0x09, 0x0A, 0x0B, 0x0C, 0x0D, 0x20, 0xA0, 0x1680, 0x2028, 0x2029, 0x202F, 0x205F,
            0x3000, 0xFEFF} \<or> (0x2000 \<le> c \<and> c \<le> 0x200A))"

text \<open>
  \<^verbatim>\<open>parseInt(s, 16)\<close>: skip leading white space, read a sign, skip one \<^verbatim>\<open>0x\<close> or \<^verbatim>\<open>0X\<close>,
  then read the longest run of digits; what follows is ignored. No digit at all gives
  \<^verbatim>\<open>NaN\<close>, here \<open>None\<close>. It never throws.
\<close>

definition parseInt16 :: "jsstring \<Rightarrow> int option" where
  "parseInt16 s =
     (let s1 = dropWhile isWhiteSpace s;
          neg = (s1 \<noteq> [] \<and> hd s1 = 0x2D);
          s2 = (if s1 \<noteq> [] \<and> (hd s1 = 0x2B \<or> hd s1 = 0x2D) then tl s1 else s1);
          s3 = (if startsWith s2 (str ''0x'') \<or> startsWith s2 (str ''0X'') then drop 2 s2 else s2);
          z = takeWhile isHexDigit s3
      in if z = [] then None
         else Some (if neg then - int (hexValue z) else int (hexValue z)))"

text \<open>Storing a Number into a \<^verbatim>\<open>Uint8Array\<close>: \<^verbatim>\<open>NaN\<close> becomes 0, an integer is taken modulo 256.\<close>

definition toUint8 :: "int option \<Rightarrow> byte" where
  "toUint8 v = (case v of None \<Rightarrow> 0 | Some n \<Rightarrow> word_of_int n)"

subsection \<open>utils.ts\<close>

text \<open>
  \<^verbatim>\<open>hexToBytes\<close>: one leading \<^verbatim>\<open>0x\<close> is dropped, the array has \<open>length div 2\<close> elements
  (the typed array constructor truncates its length argument), and element \<open>i\<close> is
  \<^verbatim>\<open>parseInt\<close> of the two characters at \<open>2 * i\<close>. Nothing in it throws.
\<close>

definition hexToBytes :: "jsstring \<Rightarrow> bytes" where
  "hexToBytes hex =
     (let cleanHex = (if startsWith hex (str ''0x'') then drop 2 hex else hex)
      in map (\<lambda>i. toUint8 (parseInt16 (slice cleanHex (i * 2) (i * 2 + 2))))
             [0 ..< length cleanHex div 2])"

definition bytesToHex :: "bytes \<Rightarrow> jsstring" where
  "bytesToHex bs = concat (map (\<lambda>b. padStart 2 0x30 (toString16 (unat b))) bs)"

subsection \<open>The memo codec of crypto.ts\<close>

definition MEMO_PREFIX :: jsstring where
  "MEMO_PREFIX = str ''ADLSv1:''"

definition generateStealthMemo :: "bytes \<Rightarrow> jsstring" where
  "generateStealthMemo ephemeralPubkey = MEMO_PREFIX @ bytesToHex ephemeralPubkey"

text \<open>
  \<^verbatim>\<open>parseStealthMemo\<close> returns \<^verbatim>\<open>null\<close> (\<open>None\<close>) on a wrong prefix and on a payload that is
  not 64 code units long. Its \<^verbatim>\<open>try/catch\<close> around \<^verbatim>\<open>hexToBytes\<close> has no effect, since
  \<^verbatim>\<open>hexToBytes\<close> has no throwing path.
\<close>

definition parseStealthMemo :: "jsstring \<Rightarrow> bytes option" where
  "parseStealthMemo memo =
     (if \<not> startsWith memo MEMO_PREFIX then None
      else let pubkeyHex = drop (length MEMO_PREFIX) memo
           in if length pubkeyHex \<noteq> 64 then None else Some (hexToBytes pubkeyHex))"

section \<open>Errors\<close>

text \<open>
  Every exception the modelled code can raise is a value: a function that can throw returns
  \<open>error + 'a\<close>, with \<open>Inl\<close> the exception, and \<open>andThen\<close> passes it on as an uncaught
  exception propagates.
\<close>

datatype error = BigIntSyntaxError | InvalidScalar | InvalidPoint | RangeError | FetchFailed

definition andThen :: "error + 'a \<Rightarrow> ('a \<Rightarrow> error + 'b) \<Rightarrow> error + 'b" where
  "andThen r f = (case r of Inl e \<Rightarrow> Inl e | Inr v \<Rightarrow> f v)"

section \<open>Scalars\<close>

text \<open>The group order \<^verbatim>\<open>ed.CURVE.n\<close> of the curve library.\<close>

definition L :: nat where
  "L = 2 ^ 252 + 27742317777372353535851937790883648493"

text \<open>
  \<^verbatim>\<open>BigInt("0x" + hex)\<close> for a string \<open>hex\<close> without white space (every call passes the
  output of \<^verbatim>\<open>bytesToHex\<close>): the value of the digits, and a \<^verbatim>\<open>SyntaxError\<close> when there is
  no digit or a character is not a digit.
\<close>

definition BigInt0x :: "jsstring \<Rightarrow> error + nat" where
  "BigInt0x hex =
     (if hex \<noteq> [] \<and> list_all isHexDigit hex then Inr (hexValue hex) else Inl BigIntSyntaxError)"

definition toScalar :: "bytes \<Rightarrow> error + nat" where
  "toScalar bs =
     (let cleanBytes = (if length bs = 64 then take 32 bs else bs);
          reversed = rev cleanBytes
      in andThen (BigInt0x (bytesToHex reversed)) (\<lambda>v. Inr (v mod L)))"

text \<open>
  The serialisation that \<^verbatim>\<open>recoverStealthSecretKey\<close> and \<^verbatim>\<open>signWithScalar\<close> both write out:
  \<^verbatim>\<open>hexToBytes(s.toString(16).padStart(64, "0")).reverse()\<close>.
\<close>

definition scalarToBytes :: "nat \<Rightarrow> bytes" where
  "scalarToBytes s = rev (hexToBytes (padStart 64 0x30 (toString16 s)))"

text \<open>The little-endian value of a byte array, in the words of the specification.\<close>

definition le_nat :: "bytes \<Rightarrow> nat" where
  "le_nat bs = foldr (\<lambda>b acc. unat b + 256 * acc) bs 0"

section \<open>The curve library\<close>

text \<open>
  The curve arithmetic (\<^verbatim>\<open>@noble/ed25519\<close>, imported as \<^verbatim>\<open>ed\<close>) and the hash functions
  (\<^verbatim>\<open>@noble/hashes\<close>) are libraries outside the repository. They are parameters: a
  record of the operations the code calls, over any type \<open>'p\<close> of curve points.
  \<open>BASE\<close> and \<open>ZERO\<close> are the base point and the neutral point, \<open>point_add\<close> is
  \<^verbatim>\<open>P.add(Q)\<close>, \<open>fromHex\<close> decodes a point from the hexadecimal text of its 32 bytes
  and throws on a text that encodes none, \<open>toRawBytes\<close> encodes a point.
\<close>

record 'p ed =
  BASE :: 'p
  ZERO :: 'p
  point_add :: "'p \<Rightarrow> 'p \<Rightarrow> 'p"
  fromHex :: "jsstring \<Rightarrow> error + 'p"
  toRawBytes :: "'p \<Rightarrow> bytes"
  sha256 :: "bytes \<Rightarrow> bytes"
  sha512 :: "bytes \<Rightarrow> bytes"

text \<open>The scalar multiple \<open>n \<cdot> P\<close>: \<open>P\<close> added \<open>n\<close> times.\<close>

primrec smul :: "('p, 'm) ed_scheme \<Rightarrow> 'p \<Rightarrow> nat \<Rightarrow> 'p" where
  "smul C P 0 = ZERO C"
| "smul C P (Suc n) = point_add C P (smul C P n)"

text \<open>
  \<^verbatim>\<open>P.multiply(n)\<close> of the library (the interface the code uses, \<^verbatim>\<open>ed.etc\<close>,
  \<^verbatim>\<open>ed.ExtendedPoint\<close> and \<^verbatim>\<open>ed.CURVE.n\<close>, is that of its version 2) computes
  \<open>n \<cdot> P\<close> for \<open>0 < n < L\<close> and throws for every other \<open>n\<close>: \<^verbatim>\<open>cannot multiply by 0\<close>
  for zero, \<^verbatim>\<open>invalid scalar, must be < L\<close> from \<open>L\<close> on.
\<close>

definition multiply :: "('p, 'm) ed_scheme \<Rightarrow> 'p \<Rightarrow> nat \<Rightarrow> error + 'p" where
  "multiply C P n = (if 0 < n \<and> n < L then Inr (smul C P n) else Inl InvalidScalar)"

text \<open>
  What the proofs ask of the library: point addition is associative with neutral element
  \<open>ZERO\<close>, the base point has order dividing \<open>L\<close>, decoding undoes encoding, and encodings
  and digests have their fixed lengths.
\<close>

definition curve_ok :: "('p, 'm) ed_scheme \<Rightarrow> bool" where
  "curve_ok C \<longleftrightarrow>
     (\<forall>P Q R. point_add C (point_add C P Q) R = point_add C P (point_add C Q R)) \<and>
     (\<forall>P. point_add C (ZERO C) P = P) \<and>
     (\<forall>P. point_add C P (ZERO C) = P) \<and>
     smul C (BASE C) L = ZERO C \<and>
     (\<forall>P. fromHex C (bytesToHex (toRawBytes C P)) = Inr P) \<and>
     (\<forall>P. length (toRawBytes C P) = 32) \<and>
     (\<forall>x. length (sha256 C x) = 32) \<and>
     (\<forall>x. length (sha512 C x) = 64)"

section \<open>crypto.ts\<close>

definition derivePublicKey :: "('p, 'm) ed_scheme \<Rightarrow> bytes \<Rightarrow> error + bytes" where
  "derivePublicKey C secretKey =
     andThen (toScalar secretKey) (\<lambda>scalar.
     andThen (multiply C (BASE C) scalar) (\<lambda>P.
     Inr (toRawBytes C P)))"

definition computeSharedSecret :: "('p, 'm) ed_scheme \<Rightarrow> bytes \<Rightarrow> bytes \<Rightarrow> error + bytes" where
  "computeSharedSecret C ephemeralSk recipientMetaPk =
     andThen (fromHex C (bytesToHex recipientMetaPk)) (\<lambda>point.
     andThen (toScalar ephemeralSk) (\<lambda>scalar.
     andThen (multiply C point scalar) (\<lambda>Q.
     Inr (sha256 C (toRawBytes C Q)))))"

definition computeSharedSecretAsRecipient ::
  "('p, 'm) ed_scheme \<Rightarrow> bytes \<Rightarrow> bytes \<Rightarrow> error + bytes" where
  "computeSharedSecretAsRecipient C metaSk ephemeralPk =
     andThen (fromHex C (bytesToHex ephemeralPk)) (\<lambda>point.
     andThen (toScalar metaSk) (\<lambda>scalar.
     andThen (multiply C point scalar) (\<lambda>Q.
     Inr (sha256 C (toRawBytes C Q)))))"

text \<open>\<^verbatim>\<open>encoder.encode(ADELOS_CONFIG.STEALTH_DOMAIN)\<close>: the UTF-8 bytes of an ASCII constant.\<close>

definition STEALTH_DOMAIN :: bytes where
  "STEALTH_DOMAIN = map (\<lambda>c. of_nat (of_char c)) ''adelos:stealth:v1''"

definition deriveStealthPubkey :: "('p, 'm) ed_scheme \<Rightarrow> bytes \<Rightarrow> bytes \<Rightarrow> error + bytes" where
  "deriveStealthPubkey C metaPk sharedSecret =
     (let scalarBytes = sha256 C (sharedSecret @ STEALTH_DOMAIN)
      in andThen (toScalar scalarBytes) (\<lambda>scalar.
         andThen (fromHex C (bytesToHex metaPk)) (\<lambda>metaPoint.
         andThen (multiply C (BASE C) scalar) (\<lambda>Q.
         Inr (toRawBytes C (point_add C metaPoint Q))))))"

definition recoverStealthSecretKey ::
  "('p, 'm) ed_scheme \<Rightarrow> bytes \<Rightarrow> bytes \<Rightarrow> error + bytes" where
  "recoverStealthSecretKey C metaSk sharedSecret =
     (let scalarBytes = sha256 C (sharedSecret @ STEALTH_DOMAIN)
      in andThen (toScalar scalarBytes) (\<lambda>scalar.
         andThen (toScalar metaSk) (\<lambda>metaScalar.
         Inr (scalarToBytes ((metaScalar + scalar) mod L)))))"

text \<open>\<^verbatim>\<open>dst.set(src, offset)\<close> on typed arrays: a \<^verbatim>\<open>RangeError\<close> when \<open>src\<close> does not fit.\<close>

definition typedArraySet :: "bytes \<Rightarrow> bytes \<Rightarrow> nat \<Rightarrow> error + bytes" where
  "typedArraySet dst src off =
     (if length dst < off + length src then Inl RangeError
      else Inr (take off dst @ src @ drop (off + length src) dst))"

text \<open>
  \<^verbatim>\<open>signWithScalar\<close>. The nonce bytes drawn by \<^verbatim>\<open>ed.utils.randomPrivateKey()\<close> are the
  argument \<open>rBytes\<close>. The buffer \<open>content\<close> is allocated with the summed length and filled
  by three \<^verbatim>\<open>set\<close> calls that fit exactly, so it is the concatenation.
\<close>

definition signWithScalar ::
  "('p, 'm) ed_scheme \<Rightarrow> bytes \<Rightarrow> bytes \<Rightarrow> bytes \<Rightarrow> error + bytes" where
  "signWithScalar C message scalarBytes rBytes =
     andThen (toScalar scalarBytes) (\<lambda>scalar.
     andThen (multiply C (BASE C) scalar) (\<lambda>pubPoint.
     let pubBytes = toRawBytes C pubPoint in
     andThen (toScalar rBytes) (\<lambda>rScalar.
     andThen (multiply C (BASE C) rScalar) (\<lambda>R.
     let RBytes = toRawBytes C R;
         content = RBytes @ pubBytes @ message;
         hram = sha512 C content;
         hramReversed = rev hram in
     andThen (BigInt0x (bytesToHex hramReversed)) (\<lambda>h.
     let k = h mod L;
         S = (rScalar + k * scalar) mod L;
         SBytes = scalarToBytes S in
     andThen (typedArraySet (replicate 64 0) RBytes 0) (\<lambda>signature.
     typedArraySet signature SBytes 32))))))"

section \<open>The indexer\<close>

text \<open>
  A \<^verbatim>\<open>PublicKey\<close> is its 32 bytes. Of a parsed transaction the scanner reads the
  instructions (program id and the \<^verbatim>\<open>parsed\<close> field, a string for the memo program), the
  account keys, the balances of the execution metadata and the block time. Balances are
  JavaScript Numbers holding integers, and \<^verbatim>\<open>BigInt(n)\<close> of such a Number is that integer.
\<close>

type_synonym PublicKey = bytes

record Instruction =
  programId :: PublicKey
  parsed :: "jsstring option"

record TransactionMeta =
  preBalances :: "int list"
  postBalances :: "int list"

record ParsedTransaction =
  instructions :: "Instruction list"
  accountKeys :: "PublicKey list"
  meta :: "TransactionMeta option"
  tx_blockTime :: "int option"

record StealthTransaction =
  signature :: jsstring
  blockTime :: "int option"
  stealthAddress :: PublicKey
  amount :: int
  ephemeralPk :: bytes

record WithdrawableTransaction = StealthTransaction +
  stealthSecretKey :: bytes

text \<open>The object literal that \<^verbatim>\<open>attemptDecryption\<close> returns on a match.\<close>

record Detected =
  det_stealthAddress :: PublicKey
  det_amount :: int
  det_ephemeralPk :: bytes

text \<open>\<^verbatim>\<open>MemoSq4gqABAXKb96qnH8TysNcWxMyWCqXgDLGmfcHr\<close>, decoded from base 58.\<close>

definition MEMO_PROGRAM_ID :: PublicKey where
  "MEMO_PROGRAM_ID =
     [5, 74, 83, 90, 153, 41, 33, 6, 77, 36, 232, 113, 96, 218, 56, 124,
      124, 53, 181, 221, 188, 146, 187, 129, 228, 31, 168, 64, 65, 5, 68, 141]"

text \<open>\<^verbatim>\<open>(ix as any)?.parsed || null\<close>: a missing instruction, a missing field and the empty
  string all give \<^verbatim>\<open>null\<close>.\<close>

definition extractMemo :: "ParsedTransaction \<Rightarrow> jsstring option" where
  "extractMemo tx =
     (case find (\<lambda>i. programId i = MEMO_PROGRAM_ID) (instructions tx) of
        None \<Rightarrow> None
      | Some ix \<Rightarrow> (case parsed ix of None \<Rightarrow> None | Some s \<Rightarrow> if s = [] then None else Some s))"

text \<open>\<^verbatim>\<open>findIndex\<close>: the first index whose element passes, \<open>None\<close> for \<open>-1\<close>.\<close>

fun findIndex :: "('a \<Rightarrow> bool) \<Rightarrow> 'a list \<Rightarrow> nat option" where
  "findIndex p [] = None"
| "findIndex p (x # xs) = (if p x then Some 0 else map_option Suc (findIndex p xs))"

text \<open>\<^verbatim>\<open>BigInt(balances[idx] || 0)\<close>: an index past the end reads \<^verbatim>\<open>undefined\<close>, taken as 0.\<close>

definition balanceAt :: "int list \<Rightarrow> nat \<Rightarrow> int" where
  "balanceAt balances idx = (if idx < length balances then balances ! idx else 0)"

text \<open>\<^verbatim>\<open>tx.meta?.preBalances || []\<close> and \<^verbatim>\<open>tx.meta?.postBalances || []\<close>.\<close>

definition preBalancesOf :: "ParsedTransaction \<Rightarrow> int list" where
  "preBalancesOf tx = (case meta tx of None \<Rightarrow> [] | Some m \<Rightarrow> preBalances m)"

definition postBalancesOf :: "ParsedTransaction \<Rightarrow> int list" where
  "postBalancesOf tx = (case meta tx of None \<Rightarrow> [] | Some m \<Rightarrow> postBalances m)"

definition attemptDecryption ::
  "('p, 'm) ed_scheme \<Rightarrow> ParsedTransaction \<Rightarrow> bytes \<Rightarrow> bytes \<Rightarrow> error + Detected option" where
  "attemptDecryption C tx metaSk metaPk =
     (let memo = extractMemo tx in
      case parseStealthMemo (case memo of None \<Rightarrow> [] | Some m \<Rightarrow> m) of
        None \<Rightarrow> Inr None
      | Some ephPk \<Rightarrow>
          andThen (computeSharedSecretAsRecipient C metaSk ephPk) (\<lambda>secret.
          andThen (deriveStealthPubkey C metaPk secret) (\<lambda>stealthPk.
          let expectedStealthHex = bytesToHex stealthPk;
              accounts = accountKeys tx
          in case findIndex (\<lambda>a. bytesToHex a = expectedStealthHex) accounts of
               None \<Rightarrow> Inr None
             | Some idx \<Rightarrow>
                 let change = balanceAt (postBalancesOf tx) idx - balanceAt (preBalancesOf tx) idx
                 in Inr (Some \<lparr>det_stealthAddress = accounts ! idx,
                               det_amount = (if change > 0 then change else 0),
                               det_ephemeralPk = ephPk\<rparr>))))"

definition prepareWithdraw ::
  "('p, 'm) ed_scheme \<Rightarrow> StealthTransaction \<Rightarrow> bytes \<Rightarrow> bytes \<Rightarrow> error + WithdrawableTransaction"
  where
  "prepareWithdraw C stealthTx metaSk metaPk =
     andThen (computeSharedSecretAsRecipient C metaSk (ephemeralPk stealthTx)) (\<lambda>sharedSecret.
     andThen (recoverStealthSecretKey C metaSk sharedSecret) (\<lambda>sk.
     Inr \<lparr>signature = signature stealthTx, blockTime = blockTime stealthTx,
          stealthAddress = stealthAddress stealthTx, amount = amount stealthTx,
          ephemeralPk = ephemeralPk stealthTx, stealthSecretKey = sk\<rparr>))"

subsection \<open>The scan\<close>

text \<open>
  The ledger connection: each call resolves to a value or rejects. \<^verbatim>\<open>getParsedTransaction\<close>
  resolves to \<^verbatim>\<open>null\<close> (\<open>None\<close>) for a transaction it does not find. Of each entry of the
  signature list only the signature string is read.
\<close>

record Connection =
  getSignaturesForAddress :: "nat \<Rightarrow> error + jsstring list"
  getParsedTransaction :: "jsstring \<Rightarrow> error + ParsedTransaction option"

text \<open>The \<^verbatim>\<open>for\<close> loop of \<^verbatim>\<open>scanForStealthTransfers\<close>, with \<open>results\<close> as accumulator.\<close>

fun scanLoop ::
  "Connection \<Rightarrow> ('p, 'm) ed_scheme \<Rightarrow> bytes \<Rightarrow> bytes \<Rightarrow> jsstring list \<Rightarrow>
   StealthTransaction list \<Rightarrow> error + StealthTransaction list" where
  "scanLoop conn C metaSk metaPk [] results = Inr results"
| "scanLoop conn C metaSk metaPk (s # sigs) results =
     andThen (getParsedTransaction conn s) (\<lambda>fetched.
       case fetched of
         None \<Rightarrow> scanLoop conn C metaSk metaPk sigs results
       | Some tx \<Rightarrow>
           (case extractMemo tx of
              None \<Rightarrow> scanLoop conn C metaSk metaPk sigs results
            | Some memo \<Rightarrow>
                if \<not> startsWith memo MEMO_PREFIX then scanLoop conn C metaSk metaPk sigs results
                else
                  andThen (attemptDecryption C tx metaSk metaPk) (\<lambda>detected.
                    case detected of
                      None \<Rightarrow> scanLoop conn C metaSk metaPk sigs results
                    | Some d \<Rightarrow>
                        scanLoop conn C metaSk metaPk sigs
                          (results @ [\<lparr>signature = s, blockTime = tx_blockTime tx,
                                       stealthAddress = det_stealthAddress d,
                                       amount = det_amount d,
                                       ephemeralPk = det_ephemeralPk d\<rparr>]))))"

definition scanForStealthTransfers ::
  "Connection \<Rightarrow> ('p, 'm) ed_scheme \<Rightarrow> bytes \<Rightarrow> bytes \<Rightarrow> nat \<Rightarrow>
   error + StealthTransaction list" where
  "scanForStealthTransfers conn C metaSk metaPk limit =
     andThen (getSignaturesForAddress conn limit) (\<lambda>sigs.
       scanLoop conn C metaSk metaPk sigs [])"

section \<open>Auxiliary definitions for the proofs\<close>

text \<open>The loop of \<^verbatim>\<open>hexToBytes\<close> read two characters at a time.\<close>

fun pairsToBytes :: "jsstring \<Rightarrow> bytes" where
  "pairsToBytes (a # b # r) = toUint8 (parseInt16 [a, b]) # pairsToBytes r"
| "pairsToBytes r = []"

text \<open>
  An instance of the library interface, to show that what \<open>curve_ok\<close> asks can be met: the
  integers modulo \<open>L\<close> under addition, a cyclic group of order \<open>L\<close> as the one the base
  point generates, with 1 as base point. A point is encoded as its 32 little-endian
  bytes; the digests pad or cut their input to the digest length.
\<close>

typedef zl = "{n::nat. n < L}"
  by (rule exI [of _ 0]) (simp add: L_def)

definition cyclic :: "zl ed" where
  "cyclic =
     \<lparr>BASE = Abs_zl 1,
      ZERO = Abs_zl 0,
      point_add = (\<lambda>P Q. Abs_zl ((Rep_zl P + Rep_zl Q) mod L)),
      fromHex = (\<lambda>h. let bs = hexToBytes h
                      in if length bs = 32 \<and> le_nat bs < L then Inr (Abs_zl (le_nat bs))
                         else Inl InvalidPoint),
      toRawBytes = (\<lambda>P. scalarToBytes (Rep_zl P)),
      sha256 = (\<lambda>x. take 32 (x @ replicate 32 0)),
      sha512 = (\<lambda>x. take 64 (x @ replicate 64 0))\<rparr>"

text \<open>
  A transaction for the instance: a memo instruction carrying the public key of the
  ephemeral scalar 3, and two accounts, the second being the stealth address that belongs
  to the meta scalar 2. Its balance goes from 5 to 45.
\<close>

definition example_tx :: ParsedTransaction where
  "example_tx =
     \<lparr>instructions =
        [\<lparr>programId = MEMO_PROGRAM_ID, parsed = Some (generateStealthMemo (scalarToBytes 3))\<rparr>],
      accountKeys = [scalarToBytes 1, scalarToBytes 8],
      meta = Some \<lparr>preBalances = [100, 5], postBalances = [60, 45]\<rparr>,
      tx_blockTime = Some 1700000000\<rparr>"

text \<open>
  Three connections: one that lists two signatures and finds a transaction for the second
  only, one whose transaction fetch rejects, and one whose signature-list fetch rejects.
\<close>

definition conn_not_found :: Connection where
  "conn_not_found =
     \<lparr>getSignaturesForAddress = (\<lambda>limit. Inr [str ''sig1'', str ''sig2'']),
      getParsedTransaction =
        (\<lambda>s. if s = str ''sig2'' then Inr (Some example_tx) else Inr None)\<rparr>"

definition conn_rejecting :: Connection where
  "conn_rejecting =
     \<lparr>getSignaturesForAddress = (\<lambda>limit. Inr [str ''sig1'']),
      getParsedTransaction = (\<lambda>s. Inl FetchFailed)\<rparr>"

definition conn_down :: Connection where
  "conn_down =
     \<lparr>getSignaturesForAddress = (\<lambda>limit. Inl FetchFailed),
      getParsedTransaction = (\<lambda>s. Inl FetchFailed)\<rparr>"


section \<open>Hexadecimal encoding and decoding\<close>

lemma unat_hexDigit: "d < 16 \<Longrightarrow> unat (hexDigit d) = (if d < 10 then 48 + d else 87 + d)"
  by (simp add: hexDigit_def unat_of_nat del: of_nat_add)

lemma hexDigit_value: "d < 16 \<Longrightarrow> digitValue (hexDigit d) = Some d"
  by (simp add: digitValue_def word_le_nat_alt unat_hexDigit)

lemma hexDigit_isHexDigit: "d < 16 \<Longrightarrow> isHexDigit (hexDigit d)"
  by (simp add: isHexDigit_def hexDigit_value)

lemma isHexDigit_range:
  "isHexDigit c \<Longrightarrow>
     (48 \<le> unat c \<and> unat c \<le> 57) \<or> (97 \<le> unat c \<and> unat c \<le> 102) \<or> (65 \<le> unat c \<and> unat c \<le> 70)"
  by (auto simp: isHexDigit_def digitValue_def word_le_nat_alt split: if_splits)

lemma isHexDigit_not_space: "isHexDigit c \<Longrightarrow> \<not> isWhiteSpace c"
  unfolding isWhiteSpace_def
  using isHexDigit_range [of c] by (auto simp: word_le_nat_alt)

lemma isHexDigit_neq:
  "isHexDigit c \<Longrightarrow> c \<noteq> 0x2D \<and> c \<noteq> 0x2B \<and> c \<noteq> 0x78 \<and> c \<noteq> 0x58"
  using isHexDigit_range [of c] by auto

text \<open>On two digits \<^verbatim>\<open>parseInt\<close> reads both.\<close>

lemma parseInt16_pair:
  assumes "isHexDigit a" "isHexDigit b"
  shows "parseInt16 [a, b] = Some (int (16 * the (digitValue a) + the (digitValue b)))"
  using assms isHexDigit_neq [of a] isHexDigit_neq [of b]
  by (simp add: parseInt16_def isHexDigit_not_space startsWith_def str_def hexValue_def)

lemma hex2:
  "n < 256 \<Longrightarrow> padStart 2 0x30 (toString16 n) = [hexDigit (n div 16), hexDigit (n mod 16)]"
proof (cases "n < 16")
  case True
  then show ?thesis by (simp add: toString16.simps [of n] padStart_def hexDigit_def)
next
  case False
  assume "n < 256"
  then have "n div 16 < 16" by simp
  then show ?thesis using False
    by (simp add: toString16.simps [of n] toString16.simps [of "n div 16"] padStart_def)
qed

lemma toUint8_byte: "toUint8 (Some (uint b)) = (b::byte)"
  by (simp add: toUint8_def)

lemma slices_pairs:
  "map (\<lambda>i. toUint8 (parseInt16 (slice s (i * 2) (i * 2 + 2)))) [0 ..< length s div 2] =
   pairsToBytes s"
proof (induction s rule: pairsToBytes.induct)
  case (1 a b r)
  have "map (\<lambda>i. toUint8 (parseInt16 (slice (a # b # r) (i * 2) (i * 2 + 2))))
          [0 ..< Suc (length r div 2)] =
        toUint8 (parseInt16 [a, b]) #
        map (\<lambda>i. toUint8 (parseInt16 (slice r (i * 2) (i * 2 + 2)))) [0 ..< length r div 2]"
    by (simp add: map_upt_Suc slice_def del: upt_Suc)
  then show ?case using 1 by simp
qed (simp_all add: slice_def)

lemma unat_byte_nibbles: "unat (b::byte) div 16 < 16" "unat (b::byte) mod 16 < 16"
  using unsigned_less [of b, where ?'a = nat] by simp_all

lemma bytesToHex_Cons:
  "bytesToHex (b # bs) = hexDigit (unat b div 16) # hexDigit (unat b mod 16) # bytesToHex bs"
proof -
  have "unat b < 256" using unsigned_less [of b, where ?'a = nat] by simp
  then show ?thesis by (simp add: bytesToHex_def hex2)
qed

lemma bytesToHex_Nil: "bytesToHex [] = []"
  by (simp add: bytesToHex_def)

lemma length_bytesToHex: "length (bytesToHex bs) = 2 * length bs"
  by (induction bs) (simp_all add: bytesToHex_Cons bytesToHex_Nil)

lemma bytesToHex_digits: "list_all isHexDigit (bytesToHex bs)"
  by (induction bs)
    (simp_all add: bytesToHex_Cons bytesToHex_Nil hexDigit_isHexDigit unat_byte_nibbles)

lemma pairs_bytesToHex: "pairsToBytes (bytesToHex bs) = bs"
  by (induction bs)
    (simp_all add: bytesToHex_Cons bytesToHex_Nil parseInt16_pair hexDigit_isHexDigit
      hexDigit_value unat_byte_nibbles toUint8_byte)

lemma digits_no_0x: "list_all isHexDigit h \<Longrightarrow> \<not> startsWith h (str ''0x'')"
proof (cases h)
  case Nil
  then show ?thesis by (simp add: startsWith_def str_def)
next
  case (Cons a t)
  assume d: "list_all isHexDigit h"
  show ?thesis
  proof (cases t)
    case Nil
    then show ?thesis using Cons by (simp add: startsWith_def str_def)
  next
    case (Cons b u)
    then have "isHexDigit b" using d \<open>h = a # t\<close> by simp
    then have "b \<noteq> 0x78" using isHexDigit_neq by blast
    then show ?thesis using Cons \<open>h = a # t\<close> by (simp add: startsWith_def str_def)
  qed
qed

lemma hexToBytes_digits: "list_all isHexDigit h \<Longrightarrow> hexToBytes h = pairsToBytes h"
  unfolding hexToBytes_def Let_def slices_pairs
  by (simp add: digits_no_0x)

lemma hexToBytes_bytesToHex: "hexToBytes (bytesToHex bs) = bs"
  by (simp add: hexToBytes_digits bytesToHex_digits pairs_bytesToHex)

lemma length_hexToBytes:
  "length (hexToBytes h) =
     (if startsWith h (str ''0x'') then (length h - 2) div 2 else length h div 2)"
  by (simp add: hexToBytes_def)

lemma hexDigit_lowercase:
  "d < 16 \<Longrightarrow>
     (0x30 \<le> hexDigit d \<and> hexDigit d \<le> 0x39) \<or> (0x61 \<le> hexDigit d \<and> hexDigit d \<le> 0x66)"
  using unat_hexDigit [of d] by (auto simp: word_le_nat_alt)

lemma bytesToHex_lowercase:
  "list_all (\<lambda>c. (0x30 \<le> c \<and> c \<le> 0x39) \<or> (0x61 \<le> c \<and> c \<le> 0x66)) (bytesToHex bs)"
  by (induction bs)
    (simp_all add: bytesToHex_Cons bytesToHex_Nil hexDigit_lowercase unat_byte_nibbles)

section \<open>The memo codec\<close>

lemma parse_generate: "length pk = 32 \<Longrightarrow> parseStealthMemo (generateStealthMemo pk) = Some pk"
  by (simp add: parseStealthMemo_def generateStealthMemo_def startsWith_def
      length_bytesToHex hexToBytes_bytesToHex)

text \<open>
  Claim C6. For every 32-byte public key \<open>pk\<close>, decoding the encoded memo returns \<open>pk\<close>:
  \<^verbatim>\<open>parseStealthMemo(generateStealthMemo(pk))\<close> is \<open>pk\<close>, where the encoding is the fixed
  prefix followed by the 64 lower-case hexadecimal characters of \<open>pk\<close> (each is one
  of \<^verbatim>\<open>0\<close> to \<^verbatim>\<open>9\<close> or \<^verbatim>\<open>a\<close> to \<^verbatim>\<open>f\<close>).
\<close>

theorem memo_round_trip:
  "length pk = 32 \<Longrightarrow>
     parseStealthMemo (generateStealthMemo pk) = Some pk \<and>
     generateStealthMemo pk = str ''ADLSv1:'' @ bytesToHex pk \<and>
     length (bytesToHex pk) = 64 \<and>
     list_all (\<lambda>c. (0x30 \<le> c \<and> c \<le> 0x39) \<or> (0x61 \<le> c \<and> c \<le> 0x66)) (bytesToHex pk)"
  by (simp add: parseStealthMemo_def generateStealthMemo_def startsWith_def MEMO_PREFIX_def
      length_bytesToHex hexToBytes_bytesToHex bytesToHex_lowercase)

theorem memo_round_trip_witness:
  "length (replicate 32 (0xAB::byte)) = 32 \<and>
   parseStealthMemo (generateStealthMemo (replicate 32 0xAB)) = Some (replicate 32 0xAB)"
proof -
  have h: "length (replicate 32 (0xAB::byte)) = 32" by simp
  from memo_round_trip [OF h] h show ?thesis by blast
qed

text \<open>
  What \<^verbatim>\<open>parseStealthMemo\<close> rejects: a wrong prefix and a wrong length, nothing else.
\<close>

lemma parseStealthMemo_None_iff:
  "parseStealthMemo memo = None \<longleftrightarrow>
     \<not> startsWith memo MEMO_PREFIX \<or> length memo \<noteq> length MEMO_PREFIX + 64"
  by (auto simp: parseStealthMemo_def Let_def startsWith_def)

text \<open>What it returns has 32 bytes, unless the payload starts with \<^verbatim>\<open>0x\<close>.\<close>

lemma parseStealthMemo_length:
  "parseStealthMemo memo = Some bs \<Longrightarrow>
     length bs = (if startsWith (drop (length MEMO_PREFIX) memo) (str ''0x'') then 31 else 32)"
  by (auto simp: parseStealthMemo_def Let_def length_hexToBytes split: if_splits)

lemma toUint8_zz: "toUint8 (parseInt16 [0x7A, 0x7A]) = 0"
  by (simp add: parseInt16_def isWhiteSpace_def startsWith_def str_def isHexDigit_def
      digitValue_def toUint8_def)

lemma toUint8_ab: "toUint8 (parseInt16 [0x61, 0x62]) = 0xAB"
  by (simp add: parseInt16_def isWhiteSpace_def startsWith_def str_def isHexDigit_def
      digitValue_def toUint8_def hexValue_def)

text \<open>
  Claim C5. For every string, \<^verbatim>\<open>parseStealthMemo\<close> returns none exactly when the prefix is
  wrong, or the remainder is not exactly 64 characters, or the payload contains a
  character that is not a hexadecimal digit. The code does not do the last: on the
  prefix followed by 64 times \<^verbatim>\<open>z\<close> it returns 32 zero bytes, because \<^verbatim>\<open>parseInt\<close>
  gives \<^verbatim>\<open>NaN\<close>, the typed array stores 0, and nothing is thrown for the
  \<^verbatim>\<open>catch\<close> to turn into none.
\<close>

theorem parseStealthMemo_non_hex_payload:
  "parseStealthMemo (str ''ADLSv1:zzzzzzzzzzzzzzzzzzzzzzzzzzzzzzzzzzzzzzzzzzzzzzzzzzzzzzzzzzzzzzzz'') =
     Some [0, 0, 0, 0, 0, 0, 0, 0, 0, 0, 0, 0, 0, 0, 0, 0,
           0, 0, 0, 0, 0, 0, 0, 0, 0, 0, 0, 0, 0, 0, 0, 0]"
  unfolding parseStealthMemo_def hexToBytes_def Let_def slices_pairs
  by (simp add: MEMO_PREFIX_def str_def startsWith_def toUint8_zz)

text \<open>
  Claim C9. Whenever \<^verbatim>\<open>parseStealthMemo\<close> returns a result, the byte array has length
  exactly 32. The code misses one case: a 64-character payload that starts with \<^verbatim>\<open>0x\<close>
  passes the length check, \<^verbatim>\<open>hexToBytes\<close> drops the two characters, and 31 bytes come
  back.
\<close>

theorem parseStealthMemo_0x_payload:
  "parseStealthMemo (str ''ADLSv1:0xababababababababababababababababababababababababababababababab'') =
     Some [0xAB, 0xAB, 0xAB, 0xAB, 0xAB, 0xAB, 0xAB, 0xAB, 0xAB, 0xAB, 0xAB, 0xAB, 0xAB, 0xAB,
           0xAB, 0xAB, 0xAB, 0xAB, 0xAB, 0xAB, 0xAB, 0xAB, 0xAB, 0xAB, 0xAB, 0xAB, 0xAB, 0xAB,
           0xAB, 0xAB, 0xAB]"
  unfolding parseStealthMemo_def hexToBytes_def Let_def slices_pairs
  by (simp add: MEMO_PREFIX_def str_def startsWith_def toUint8_ab)


section \<open>Exceptions and scalars\<close>

lemma andThen_Inr [simp]: "andThen (Inr v) f = f v"
  by (simp add: andThen_def)

lemma andThen_Inl [simp]: "andThen (Inl e) f = Inl e"
  by (simp add: andThen_def)

lemma andThen_eq_Inr: "andThen r f = Inr y \<longleftrightarrow> (\<exists>v. r = Inr v \<and> f v = Inr y)"
  by (cases r) simp_all

lemma le_nat_Nil: "le_nat [] = 0"
  by (simp add: le_nat_def)

lemma le_nat_Cons: "le_nat (b # bs) = unat b + 256 * le_nat bs"
  by (simp add: le_nat_def)

lemma le_nat_append: "le_nat (xs @ ys) = le_nat xs + 256 ^ length xs * le_nat ys"
  by (induction xs) (simp_all add: le_nat_Nil le_nat_Cons algebra_simps)

lemma hexValue_Nil: "hexValue [] = 0"
  by (simp add: hexValue_def)

lemma hexValue_snoc: "hexValue (ds @ [c]) = 16 * hexValue ds + the (digitValue c)"
  by (simp add: hexValue_def)

lemma hexValue_append: "hexValue (xs @ ys) = hexValue xs * 16 ^ length ys + hexValue ys"
proof (induction ys rule: rev_induct)
  case Nil
  then show ?case by (simp add: hexValue_Nil)
next
  case (snoc c ys)
  have "hexValue (xs @ ys @ [c]) = 16 * hexValue (xs @ ys) + the (digitValue c)"
    using hexValue_snoc [of "xs @ ys" c] by simp
  then show ?case using snoc by (simp add: hexValue_snoc algebra_simps)
qed

lemma hexValue_pair:
  "hexValue [hexDigit (unat b div 16), hexDigit (unat b mod 16)] = unat (b::byte)"
  by (simp add: hexValue_def hexDigit_value unat_byte_nibbles)

lemma bytesToHex_append: "bytesToHex (xs @ ys) = bytesToHex xs @ bytesToHex ys"
  by (simp add: bytesToHex_def)

lemma hexValue_bytesToHex_rev: "hexValue (bytesToHex (rev bs)) = le_nat bs"
proof (induction bs)
  case Nil
  then show ?case by (simp add: bytesToHex_Nil hexValue_Nil le_nat_Nil)
next
  case (Cons b bs)
  have "hexValue (bytesToHex (rev bs) @ bytesToHex [b]) =
        hexValue (bytesToHex (rev bs)) * 16 ^ 2 + unat b"
    using hexValue_pair [of b]
    by (simp add: hexValue_append bytesToHex_Cons bytesToHex_Nil)
  then show ?case using Cons by (simp add: bytesToHex_append le_nat_Cons)
qed

lemma BigInt0x_bytesToHex:
  "bs \<noteq> [] \<Longrightarrow> BigInt0x (bytesToHex (rev bs)) = Inr (le_nat bs)"
proof -
  assume "bs \<noteq> []"
  then have "length (bytesToHex (rev bs)) \<noteq> 0" by (simp add: length_bytesToHex)
  then have "bytesToHex (rev bs) \<noteq> []" by fastforce
  then show ?thesis
    by (simp add: BigInt0x_def bytesToHex_digits hexValue_bytesToHex_rev)
qed

lemma toScalar_value:
  "bs \<noteq> [] \<Longrightarrow>
     toScalar bs = Inr (le_nat (if length bs = 64 then take 32 bs else bs) mod L)"
proof -
  assume ne: "bs \<noteq> []"
  have "(if length bs = 64 then take 32 bs else bs) \<noteq> []" using ne by auto
  then show ?thesis
    unfolding toScalar_def Let_def by (simp add: BigInt0x_bytesToHex)
qed

lemma toScalar_empty: "toScalar [] = Inl BigIntSyntaxError"
  by (simp add: toScalar_def BigInt0x_def bytesToHex_Nil)

lemma L_pos: "0 < L"
  by (simp add: L_def)

lemma toScalar_less: "toScalar bs = Inr s \<Longrightarrow> s < L"
  by (cases "bs = []") (auto simp: toScalar_empty toScalar_value L_pos)

text \<open>
  Claim C7. For every 32-byte buffer, and for every 64-byte buffer, of which the first 32
  bytes are taken, \<^verbatim>\<open>toScalar\<close> reads the bytes as a little-endian integer and returns
  that integer modulo the group order \<open>L\<close>; the result lies in \<open>[0, L)\<close>, and no input
  of either length is rejected.
\<close>

theorem toScalar_reduces:
  assumes "length bs = 32 \<or> length bs = 64"
  shows "toScalar bs = Inr (le_nat (take 32 bs) mod L) \<and> le_nat (take 32 bs) mod L < L"
proof -
  have "bs \<noteq> []" using assms by auto
  then show ?thesis using assms by (auto simp: toScalar_value L_pos)
qed

theorem toScalar_reduces_witness:
  "toScalar
     [0xEE, 0xD3, 0xF5, 0x5C, 0x1A, 0x63, 0x12, 0x58, 0xD6, 0x9C, 0xF7, 0xA2, 0xDE, 0xF9,
      0xDE, 0x14, 0, 0, 0, 0, 0, 0, 0, 0, 0, 0, 0, 0, 0, 0, 0, 0x10] = Inr 1 \<and>
   toScalar
     ([0xEE, 0xD3, 0xF5, 0x5C, 0x1A, 0x63, 0x12, 0x58, 0xD6, 0x9C, 0xF7, 0xA2, 0xDE, 0xF9,
      0xDE, 0x14, 0, 0, 0, 0, 0, 0, 0, 0, 0, 0, 0, 0, 0, 0, 0, 0x10] @ replicate 32 0xFF) = Inr 1"
  using toScalar_reduces [of "[0xEE, 0xD3, 0xF5, 0x5C, 0x1A, 0x63, 0x12, 0x58, 0xD6, 0x9C, 0xF7, 0xA2, 0xDE, 0xF9,
      0xDE, 0x14, 0, 0, 0, 0, 0, 0, 0, 0, 0, 0, 0, 0, 0, 0, 0, 0x10]"]
    toScalar_reduces [of "[0xEE, 0xD3, 0xF5, 0x5C, 0x1A, 0x63, 0x12, 0x58, 0xD6, 0x9C, 0xF7, 0xA2, 0xDE, 0xF9,
      0xDE, 0x14, 0, 0, 0, 0, 0, 0, 0, 0, 0, 0, 0, 0, 0, 0, 0, 0x10] @ replicate 32 0xFF"]
  by (simp add: le_nat_def L_def)

section \<open>Serialising a scalar\<close>

lemma toString16_digits: "list_all isHexDigit (toString16 n)"
proof (induction n rule: toString16.induct)
  case (1 n)
  show ?case
  proof (cases "n < 16")
    case True
    then show ?thesis by (simp add: toString16.simps [of n] hexDigit_isHexDigit)
  next
    case False
    then show ?thesis using 1 by (simp add: toString16.simps [of n] hexDigit_isHexDigit)
  qed
qed

lemma hexValue_toString16: "hexValue (toString16 n) = n"
proof (induction n rule: toString16.induct)
  case (1 n)
  show ?case
  proof (cases "n < 16")
    case True
    then show ?thesis by (simp add: toString16.simps [of n] hexValue_def hexDigit_value)
  next
    case False
    then show ?thesis using 1
      by (simp add: toString16.simps [of n] hexValue_snoc hexDigit_value)
  qed
qed

lemma length_toString16: "n < 16 ^ k \<Longrightarrow> 0 < k \<Longrightarrow> length (toString16 n) \<le> k"
proof (induction n arbitrary: k rule: toString16.induct)
  case (1 n)
  show ?case
  proof (cases "n < 16")
    case True
    then show ?thesis using "1.prems" by (simp add: toString16.simps [of n])
  next
    case False
    obtain j where k: "k = Suc j" using "1.prems" by (cases k) auto
    have "0 < j" using False "1.prems" k by (cases j) auto
    moreover have "n div 16 < 16 ^ j" using "1.prems" k
      by (simp add: less_mult_imp_div_less mult.commute)
    ultimately have "length (toString16 (n div 16)) \<le> j" using "1.IH" False by simp
    then show ?thesis using False k by (simp add: toString16.simps [of n])
  qed
qed

lemma isHexDigit_zero: "isHexDigit 0x30"
  by (simp add: isHexDigit_def digitValue_def)

lemma padStart_digits: "list_all isHexDigit s \<Longrightarrow> list_all isHexDigit (padStart n 0x30 s)"
  using isHexDigit_zero by (auto simp: padStart_def list_all_iff)

lemma digitValue_zero: "digitValue 0x30 = Some 0"
  by (simp add: digitValue_def)

lemma hexValue_zeros: "hexValue (replicate n 0x30) = 0"
proof (induction n)
  case 0
  then show ?case by (simp add: hexValue_Nil)
next
  case (Suc n)
  have "replicate (Suc n) (0x30::unit16) = replicate n 0x30 @ [0x30]"
    by (simp add: replicate_append_same)
  then show ?case using Suc by (simp only: hexValue_snoc digitValue_zero) simp
qed

lemma hexValue_padStart: "hexValue (padStart n 0x30 s) = hexValue s"
  by (simp add: padStart_def hexValue_append hexValue_zeros)

lemma length_padStart: "length s \<le> n \<Longrightarrow> length (padStart n c s) = n"
  by (simp add: padStart_def)

lemma length_pairsToBytes: "length (pairsToBytes h) = length h div 2"
  by (induction h rule: pairsToBytes.induct) simp_all

lemma digitValue_less: "isHexDigit c \<Longrightarrow> the (digitValue c) < 16"
  using isHexDigit_range [of c]
  by (auto simp: digitValue_def word_le_nat_alt)

lemma unat_toUint8_pair:
  assumes "isHexDigit a" "isHexDigit b"
  shows "unat (toUint8 (parseInt16 [a, b])) = 16 * the (digitValue a) + the (digitValue b)"
proof -
  have "16 * the (digitValue a) + the (digitValue b) < 256"
    using digitValue_less [OF assms(1)] digitValue_less [OF assms(2)] by simp
  then show ?thesis
    by (simp add: parseInt16_pair assms toUint8_def unat_of_nat del: of_nat_add of_nat_mult)
qed

lemma hexValue_Cons2:
  "hexValue (a # b # r) =
     (16 * the (digitValue a) + the (digitValue b)) * 16 ^ length r + hexValue r"
  using hexValue_append [of "[a, b]" r] by (simp add: hexValue_def)

lemma le_nat_rev_pairs:
  "list_all isHexDigit h \<Longrightarrow> even (length h) \<Longrightarrow> le_nat (rev (pairsToBytes h)) = hexValue h"
proof (induction h rule: pairsToBytes.induct)
  case (1 a b r)
  have len: "length r = 2 * length (pairsToBytes r)"
    using 1(3) by (simp add: length_pairsToBytes)
  have "(16::nat) ^ length r = 256 ^ length (pairsToBytes r)"
    by (subst len) (simp add: power_mult)
  then show ?case using 1
    by (simp add: le_nat_append le_nat_Cons le_nat_Nil unat_toUint8_pair hexValue_Cons2)
qed (simp_all add: le_nat_Nil hexValue_Nil)

lemma scalarToBytes_length: "s < 2 ^ 256 \<Longrightarrow> length (scalarToBytes s) = 32"
proof -
  assume "s < 2 ^ 256"
  then have "s < 16 ^ 64" by simp
  then have "length (toString16 s) \<le> 64" by (rule length_toString16) simp
  then show ?thesis
    by (simp add: scalarToBytes_def hexToBytes_digits padStart_digits toString16_digits
        length_pairsToBytes length_padStart)
qed

lemma scalarToBytes_value: "s < 2 ^ 256 \<Longrightarrow> le_nat (scalarToBytes s) = s"
proof -
  assume "s < 2 ^ 256"
  then have "s < 16 ^ 64" by simp
  then have "length (toString16 s) \<le> 64" by (rule length_toString16) simp
  then have "even (length (padStart 64 0x30 (toString16 s)))"
    by (simp add: length_padStart)
  then show ?thesis
    by (simp add: scalarToBytes_def hexToBytes_digits padStart_digits toString16_digits
        le_nat_rev_pairs hexValue_padStart hexValue_toString16)
qed

lemma L_less: "L < 2 ^ 256"
  by (simp add: L_def)

lemma toScalar_scalarToBytes: "s < L \<Longrightarrow> toScalar (scalarToBytes s) = Inr s"
proof -
  assume s: "s < L"
  then have b: "s < 2 ^ 256" using L_less by simp
  have "scalarToBytes s \<noteq> []" using scalarToBytes_length [OF b] by auto
  then show ?thesis
    using s by (simp add: toScalar_value scalarToBytes_length [OF b] scalarToBytes_value [OF b])
qed


section \<open>Scalar multiples\<close>

lemma smul_add:
  "curve_ok C \<Longrightarrow> smul C P (a + b) = point_add C (smul C P a) (smul C P b)"
  by (induction a) (simp_all add: curve_ok_def)

lemma smul_ZERO: "curve_ok C \<Longrightarrow> smul C (ZERO C) n = ZERO C"
  by (induction n) (simp_all add: curve_ok_def)

lemma smul_smul: "curve_ok C \<Longrightarrow> smul C (smul C P a) b = smul C P (a * b)"
proof (induction b)
  case 0
  then show ?case by simp
next
  case (Suc b)
  then show ?case using smul_add [of C P a "a * b"] by simp
qed

lemma smul_BASE_mod:
  assumes "curve_ok C"
  shows "smul C (BASE C) (n mod L) = smul C (BASE C) n"
proof -
  have o: "smul C (BASE C) L = ZERO C" using assms by (simp add: curve_ok_def)
  have "smul C (BASE C) n = smul C (BASE C) (L * (n div L) + n mod L)" by simp
  also have "\<dots> = point_add C (smul C (BASE C) (L * (n div L))) (smul C (BASE C) (n mod L))"
    by (rule smul_add [OF assms])
  also have "smul C (BASE C) (L * (n div L)) = ZERO C"
    using smul_smul [OF assms, of "BASE C" L "n div L"] o smul_ZERO [OF assms] by simp
  finally show ?thesis using assms by (simp add: curve_ok_def)
qed

lemma multiply_eq_Inr: "multiply C P n = Inr Q \<longleftrightarrow> 0 < n \<and> n < L \<and> Q = smul C P n"
  by (auto simp: multiply_def)

lemma derivePublicKey_Inr:
  "derivePublicKey C sk = Inr pk \<longleftrightarrow>
     (\<exists>s. toScalar sk = Inr s \<and> 0 < s \<and> pk = toRawBytes C (smul C (BASE C) s))"
  by (auto simp: derivePublicKey_def andThen_eq_Inr multiply_eq_Inr dest: toScalar_less)

lemma fromHex_toRawBytes: "curve_ok C \<Longrightarrow> fromHex C (bytesToHex (toRawBytes C P)) = Inr P"
  by (simp add: curve_ok_def)

text \<open>
  Claim C3. For every pair of key pairs where \<open>metaPk\<close> is the public key that
  \<^verbatim>\<open>derivePublicKey\<close> derives from \<open>metaSk\<close> and \<open>ephPk\<close> the one it derives from
  \<open>ephSk\<close>, the sender's \<^verbatim>\<open>computeSharedSecret(ephSk, metaPk)\<close> returns the same 32-byte
  digest as the recipient's \<^verbatim>\<open>computeSharedSecretAsRecipient(metaSk, ephPk)\<close>.
\<close>

theorem shared_secret_agreement:
  assumes ok: "curve_ok C"
    and meta: "derivePublicKey C metaSk = Inr metaPk"
    and eph: "derivePublicKey C ephSk = Inr ephPk"
  shows "\<exists>digest. computeSharedSecret C ephSk metaPk = Inr digest \<and>
           computeSharedSecretAsRecipient C metaSk ephPk = Inr digest \<and>
           length digest = 32"
proof -
  obtain m where m: "toScalar metaSk = Inr m" "0 < m" "metaPk = toRawBytes C (smul C (BASE C) m)"
    using meta by (auto simp: derivePublicKey_Inr)
  obtain e where e: "toScalar ephSk = Inr e" "0 < e"
      "ephPk = toRawBytes C (smul C (BASE C) e)"
    using eph by (auto simp: derivePublicKey_Inr)
  have mL: "m < L" and eL: "e < L" using m e by (auto dest: toScalar_less)
  have "smul C (smul C (BASE C) m) e = smul C (smul C (BASE C) e) m"
    by (simp add: smul_smul [OF ok] mult.commute)
  moreover have "length (sha256 C x) = 32" for x
    using ok by (simp add: curve_ok_def)
  ultimately show ?thesis
    using m e mL eL
    by (simp add: computeSharedSecret_def computeSharedSecretAsRecipient_def
        fromHex_toRawBytes [OF ok] multiply_def)
qed

text \<open>
  Claim C1. For every meta key pair (\<open>metaPk\<close> the base-point multiple of the scalar
  reduced from \<open>metaSk\<close>, as \<^verbatim>\<open>derivePublicKey\<close> computes it) and every shared secret, the
  stealth public key that the sender path produces (\<^verbatim>\<open>deriveStealthPubkey\<close> on \<open>metaPk\<close>
  and the shared secret) is the base-point multiple of the scalar encoded in the bytes
  that the recipient path returns (\<^verbatim>\<open>recoverStealthSecretKey\<close> on \<open>metaSk\<close> and the same
  shared secret). The multiple is the group's \<open>s \<cdot> G\<close>; when \<open>s\<close> is not zero,
  \<^verbatim>\<open>derivePublicKey\<close> computes it from the recovered bytes.
\<close>

theorem stealth_key_round_trip:
  assumes ok: "curve_ok C"
    and meta: "derivePublicKey C metaSk = Inr metaPk"
    and sender: "deriveStealthPubkey C metaPk sharedSecret = Inr stealthPk"
  shows "\<exists>stealthSk s. recoverStealthSecretKey C metaSk sharedSecret = Inr stealthSk \<and>
           length stealthSk = 32 \<and>
           toScalar stealthSk = Inr s \<and>
           toRawBytes C (smul C (BASE C) s) = stealthPk \<and>
           (0 < s \<longrightarrow> derivePublicKey C stealthSk = Inr stealthPk)"
proof -
  obtain m where m: "toScalar metaSk = Inr m" "0 < m" "metaPk = toRawBytes C (smul C (BASE C) m)"
    using meta by (auto simp: derivePublicKey_Inr)
  obtain d where d: "toScalar (sha256 C (sharedSecret @ STEALTH_DOMAIN)) = Inr d"
      "0 < d" "d < L"
      "stealthPk = toRawBytes C (point_add C (smul C (BASE C) m) (smul C (BASE C) d))"
    using sender m
    by (auto simp: deriveStealthPubkey_def Let_def andThen_eq_Inr multiply_eq_Inr
        fromHex_toRawBytes [OF ok])
  let ?s = "(m + d) mod L"
  have "?s < L" by (simp add: L_pos)
  then have rt: "toScalar (scalarToBytes ?s) = Inr ?s" by (rule toScalar_scalarToBytes)
  have "smul C (BASE C) ?s = point_add C (smul C (BASE C) m) (smul C (BASE C) d)"
    by (simp add: smul_BASE_mod [OF ok] smul_add [OF ok])
  moreover have "length (scalarToBytes ?s) = 32"
    using \<open>?s < L\<close> L_less by (simp add: scalarToBytes_length)
  ultimately show ?thesis
    using m d rt by (auto simp: recoverStealthSecretKey_def Let_def derivePublicKey_Inr)
qed


section \<open>The integers modulo the group order as an instance\<close>

lemma Rep_zl_less: "Rep_zl P < L"
  using Rep_zl [of P] by simp

lemma Rep_Abs_zl: "n < L \<Longrightarrow> Rep_zl (Abs_zl n) = n"
  by (simp add: Abs_zl_inverse)

lemma cyclic_sel:
  "BASE cyclic = Abs_zl 1" "ZERO cyclic = Abs_zl 0"
  "point_add cyclic P Q = Abs_zl ((Rep_zl P + Rep_zl Q) mod L)"
  "toRawBytes cyclic P = scalarToBytes (Rep_zl P)"
  "sha256 cyclic x = take 32 (x @ replicate 32 0)"
  "sha512 cyclic x = take 64 (x @ replicate 64 0)"
  by (simp_all add: cyclic_def)

lemma cyclic_fromHex:
  "fromHex cyclic h =
     (let bs = hexToBytes h
      in if length bs = 32 \<and> le_nat bs < L then Inr (Abs_zl (le_nat bs)) else Inl InvalidPoint)"
  by (simp add: cyclic_def)

lemma cyclic_round_trip: "fromHex cyclic (bytesToHex (toRawBytes cyclic P)) = Inr P"
proof -
  have b: "Rep_zl P < 2 ^ 256" using Rep_zl_less [of P] L_less by simp
  show ?thesis
    by (simp add: cyclic_fromHex cyclic_sel hexToBytes_bytesToHex scalarToBytes_length [OF b]
        scalarToBytes_value [OF b] Rep_zl_less Rep_zl_inverse)
qed

lemma cyclic_smul: "smul cyclic P n = Abs_zl ((n * Rep_zl P) mod L)"
proof (induction n)
  case 0
  then show ?case by (simp add: cyclic_sel)
next
  case (Suc n)
  then show ?case
    by (simp add: cyclic_sel Rep_Abs_zl L_pos mod_add_right_eq)
qed

lemma one_less_L: "1 < L"
  by (simp add: L_def)

lemma cyclic_ok: "curve_ok cyclic"
  unfolding curve_ok_def
proof (intro conjI allI)
  fix P Q R :: zl
  show "point_add cyclic (point_add cyclic P Q) R = point_add cyclic P (point_add cyclic Q R)"
    by (simp add: cyclic_sel Rep_Abs_zl L_pos mod_add_left_eq mod_add_right_eq add.assoc)
  show "point_add cyclic (ZERO cyclic) P = P"
    by (simp add: cyclic_sel Rep_Abs_zl L_pos Rep_zl_less Rep_zl_inverse)
  show "point_add cyclic P (ZERO cyclic) = P"
    by (simp add: cyclic_sel Rep_Abs_zl L_pos Rep_zl_less Rep_zl_inverse)
  show "fromHex cyclic (bytesToHex (toRawBytes cyclic P)) = Inr P"
    by (rule cyclic_round_trip)
  show "length (toRawBytes cyclic P) = 32"
    using Rep_zl_less [of P] L_less by (simp add: cyclic_sel scalarToBytes_length)
next
  show "smul cyclic (BASE cyclic) L = ZERO cyclic"
    by (simp add: cyclic_smul cyclic_sel Rep_Abs_zl one_less_L)
next
  fix x :: bytes
  show "length (sha256 cyclic x) = 32" by (simp add: cyclic_sel)
  show "length (sha512 cyclic x) = 64" by (simp add: cyclic_sel)
qed

lemma cyclic_smul_BASE: "smul cyclic (BASE cyclic) n = Abs_zl (n mod L)"
proof -
  have "Rep_zl (Abs_zl 1) = 1" using one_less_L by (rule Rep_Abs_zl)
  then show ?thesis by (simp add: cyclic_smul cyclic_sel)
qed

lemma le_nat_small: "le_nat (b # replicate n 0) = unat b"
  by (induction n) (simp_all add: le_nat_Cons le_nat_Nil)

lemma toScalar_small:
  "toScalar (b # replicate 31 0) = Inr (unat b)"
proof -
  have "unat b < 2 ^ 8" using unsigned_less [of b, where ?'a = nat] by simp
  then have "unat b < L" by (simp add: L_def)
  then show ?thesis using le_nat_small [of b 31]
    by (simp add: toScalar_value)
qed

lemma cyclic_public_key:
  "b \<noteq> 0 \<Longrightarrow> derivePublicKey cyclic (b # replicate 31 0) = Inr (scalarToBytes (unat b))"
proof -
  assume "b \<noteq> 0"
  then have p: "0 < unat b" by (simp add: unat_gt_0)
  have "unat b < 2 ^ 8" using unsigned_less [of b, where ?'a = nat] by simp
  then have l: "unat b < L" by (simp add: L_def)
  show ?thesis
    using p l
    by (simp add: derivePublicKey_def toScalar_small multiply_def cyclic_smul_BASE
        cyclic_sel(4) Rep_Abs_zl)
qed


section \<open>The protocol on the instance\<close>

lemma cyclic_fromHex_scalar:
  "n < L \<Longrightarrow> fromHex cyclic (bytesToHex (scalarToBytes n)) = Inr (Abs_zl n)"
  using cyclic_round_trip [of "Abs_zl n"] by (simp add: cyclic_sel Rep_Abs_zl)

lemma cyclic_smul_Abs: "p < L \<Longrightarrow> smul cyclic (Abs_zl p) n = Abs_zl ((n * p) mod L)"
  by (simp add: cyclic_smul Rep_Abs_zl)

lemma cyclic_sha256_32: "length x = 32 \<Longrightarrow> sha256 cyclic (x @ y) = x"
  by (simp add: cyclic_sel)

lemma small_less_L: "n < 256 \<Longrightarrow> n < L"
  by (simp add: L_def)

lemma small_mod_L: "n < 256 \<Longrightarrow> n mod L = n"
  by (simp add: small_less_L)

lemma cyclic_shared_sender:
  "computeSharedSecret cyclic (3 # replicate 31 0) (scalarToBytes 2) = Inr (scalarToBytes 6)"
proof -
  have "sha256 cyclic (scalarToBytes 6 @ []) = scalarToBytes 6"
    by (rule cyclic_sha256_32) (simp add: scalarToBytes_length)
  then show ?thesis
    by (simp add: computeSharedSecret_def cyclic_fromHex_scalar small_less_L toScalar_small
        multiply_def cyclic_smul_Abs small_mod_L cyclic_sel(4) Rep_Abs_zl)
qed

lemma cyclic_shared_recipient:
  "computeSharedSecretAsRecipient cyclic (2 # replicate 31 0) (scalarToBytes 3) =
     Inr (scalarToBytes 6)"
proof -
  have "sha256 cyclic (scalarToBytes 6 @ []) = scalarToBytes 6"
    by (rule cyclic_sha256_32) (simp add: scalarToBytes_length)
  then show ?thesis
    by (simp add: computeSharedSecretAsRecipient_def cyclic_fromHex_scalar small_less_L
        toScalar_small multiply_def cyclic_smul_Abs small_mod_L cyclic_sel(4) Rep_Abs_zl)
qed

lemma cyclic_key2: "derivePublicKey cyclic (2 # replicate 31 0) = Inr (scalarToBytes 2)"
  using cyclic_public_key [of 2] by simp

lemma cyclic_key3: "derivePublicKey cyclic (3 # replicate 31 0) = Inr (scalarToBytes 3)"
  using cyclic_public_key [of 3] by simp

theorem shared_secret_agreement_witness:
  "curve_ok cyclic \<and>
   derivePublicKey cyclic (2 # replicate 31 0) = Inr (scalarToBytes 2) \<and>
   derivePublicKey cyclic (3 # replicate 31 0) = Inr (scalarToBytes 3) \<and>
   computeSharedSecret cyclic (3 # replicate 31 0) (scalarToBytes 2) = Inr (scalarToBytes 6) \<and>
   computeSharedSecretAsRecipient cyclic (2 # replicate 31 0) (scalarToBytes 3) =
     Inr (scalarToBytes 6)"
  using shared_secret_agreement [OF cyclic_ok cyclic_key2 cyclic_key3]
    cyclic_ok cyclic_key2 cyclic_key3 cyclic_shared_sender
  by auto

lemma cyclic_stealth_pk:
  "deriveStealthPubkey cyclic (scalarToBytes 2) (scalarToBytes 6) = Inr (scalarToBytes 8)"
proof -
  have "sha256 cyclic (scalarToBytes 6 @ STEALTH_DOMAIN) = scalarToBytes 6"
    by (rule cyclic_sha256_32) (simp add: scalarToBytes_length)
  then show ?thesis
    by (simp add: deriveStealthPubkey_def toScalar_scalarToBytes cyclic_fromHex_scalar
        small_less_L multiply_def cyclic_smul_BASE small_mod_L cyclic_sel(3,4) Rep_Abs_zl)
qed

lemma cyclic_stealth_sk:
  "recoverStealthSecretKey cyclic (2 # replicate 31 0) (scalarToBytes 6) = Inr (scalarToBytes 8)"
proof -
  have "sha256 cyclic (scalarToBytes 6 @ STEALTH_DOMAIN) = scalarToBytes 6"
    by (rule cyclic_sha256_32) (simp add: scalarToBytes_length)
  then show ?thesis
    by (simp add: recoverStealthSecretKey_def toScalar_scalarToBytes toScalar_small
        small_less_L small_mod_L)
qed

theorem stealth_key_round_trip_witness:
  "curve_ok cyclic \<and>
   derivePublicKey cyclic (2 # replicate 31 0) = Inr (scalarToBytes 2) \<and>
   deriveStealthPubkey cyclic (scalarToBytes 2) (scalarToBytes 6) = Inr (scalarToBytes 8) \<and>
   recoverStealthSecretKey cyclic (2 # replicate 31 0) (scalarToBytes 6) = Inr (scalarToBytes 8) \<and>
   toScalar (scalarToBytes 8) = Inr 8 \<and>
   toRawBytes cyclic (smul cyclic (BASE cyclic) 8) = scalarToBytes 8"
  using stealth_key_round_trip [OF cyclic_ok cyclic_key2 cyclic_stealth_pk]
    cyclic_ok cyclic_key2 cyclic_stealth_pk cyclic_stealth_sk
  by (auto simp: toScalar_scalarToBytes small_less_L)


section \<open>Signing with a scalar\<close>

lemma toScalar_32: "length bs = 32 \<Longrightarrow> toScalar bs = Inr (le_nat bs mod L)"
  by (cases "bs = []") (simp_all add: toScalar_value)

lemma typedArraySet_sig:
  "length R = 32 \<Longrightarrow> length S = 32 \<Longrightarrow>
     andThen (typedArraySet (replicate 64 0) R 0) (\<lambda>sigBuf. typedArraySet sigBuf S 32) =
       Inr (R @ S)"
  by (simp add: typedArraySet_def)

lemma sign_general:
  assumes ok: "curve_ok C"
    and a: "toScalar scalarBytes = Inr a" "0 < a"
    and r: "toScalar rBytes = Inr r" "0 < r"
  shows "signWithScalar C message scalarBytes rBytes =
           Inr (toRawBytes C (smul C (BASE C) r) @
                scalarToBytes
                  ((r + (le_nat (sha512 C (toRawBytes C (smul C (BASE C) r) @
                       toRawBytes C (smul C (BASE C) a) @ message)) mod L) * a) mod L))"
proof -
  have aL: "a < L" and rL: "r < L" using a r by (auto dest: toScalar_less)
  let ?R = "toRawBytes C (smul C (BASE C) r)"
  let ?A = "toRawBytes C (smul C (BASE C) a)"
  let ?h = "sha512 C (?R @ ?A @ message)"
  let ?S = "(r + (le_nat ?h mod L) * a) mod L"
  have "length ?h = 64" using ok by (simp add: curve_ok_def)
  then have "?h \<noteq> []" by auto
  then have h: "BigInt0x (bytesToHex (rev ?h)) = Inr (le_nat ?h)" by (rule BigInt0x_bytesToHex)
  have lR: "length ?R = 32" using ok by (simp add: curve_ok_def)
  have "?S < L" by (simp add: L_pos)
  then have lS: "length (scalarToBytes ?S) = 32" using L_less by (simp add: scalarToBytes_length)
  show ?thesis
    unfolding signWithScalar_def Let_def
    using a r aL rL h typedArraySet_sig [OF lR lS]
    by (simp add: multiply_def)
qed

lemma verification_equation:
  assumes ok: "curve_ok C"
  shows "smul C (BASE C) ((r + k * a) mod L) =
           point_add C (smul C (BASE C) r) (smul C (smul C (BASE C) a) k)"
  by (simp add: smul_BASE_mod [OF ok] smul_add [OF ok] smul_smul [OF ok] mult.commute)

text \<open>
  Claim C2, as amended. For every 32-byte scalar input that does not reduce to zero
  modulo \<open>L\<close>, every 32-byte nonce draw that does not reduce to zero, and every message,
  \<^verbatim>\<open>signWithScalar\<close> returns a 64-byte signature: the 32 bytes of \<open>R = r \<cdot> G\<close> followed by
  the 32 little-endian bytes of \<open>S = (r + k \<cdot> a) mod L\<close>, where \<open>a\<close> is the scalar,
  \<open>A = a \<cdot> G\<close> is the public point and \<open>k\<close> is the 64-byte digest of
  \<open>R \<parallel> A \<parallel> message\<close> read little-endian and reduced modulo \<open>L\<close>; and the
  verification equation \<open>S \<cdot> G = R + k \<cdot> A\<close> holds for the \<open>R\<close> and \<open>S\<close> decoded from
  the signature.
\<close>

theorem signWithScalar_verifies:
  assumes ok: "curve_ok C"
    and len: "length scalarBytes = 32" "length rBytes = 32"
    and nz: "0 < le_nat scalarBytes mod L" "0 < le_nat rBytes mod L"
  shows "let a = le_nat scalarBytes mod L;
             r = le_nat rBytes mod L;
             A = smul C (BASE C) a;
             R = smul C (BASE C) r;
             k = le_nat (sha512 C (toRawBytes C R @ toRawBytes C A @ message)) mod L;
             S = (r + k * a) mod L
         in \<exists>sig. signWithScalar C message scalarBytes rBytes = Inr sig \<and>
              length sig = 64 \<and>
              derivePublicKey C scalarBytes = Inr (toRawBytes C A) \<and>
              take 32 sig = toRawBytes C R \<and>
              fromHex C (bytesToHex (take 32 sig)) = Inr R \<and>
              drop 32 sig = scalarToBytes S \<and>
              le_nat (drop 32 sig) = S \<and>
              smul C (BASE C) S = point_add C R (smul C A k)"
proof -
  let ?a = "le_nat scalarBytes mod L" and ?r = "le_nat rBytes mod L"
  have a: "toScalar scalarBytes = Inr ?a" using len(1) by (rule toScalar_32)
  have r: "toScalar rBytes = Inr ?r" using len(2) by (rule toScalar_32)
  let ?R = "toRawBytes C (smul C (BASE C) ?r)"
  let ?A = "toRawBytes C (smul C (BASE C) ?a)"
  let ?k = "le_nat (sha512 C (?R @ ?A @ message)) mod L"
  let ?S = "(?r + ?k * ?a) mod L"
  have lR: "length ?R = 32" using ok by (simp add: curve_ok_def)
  have "?S < L" by (simp add: L_pos)
  then have S: "?S < 2 ^ 256" using L_less by simp
  have "signWithScalar C message scalarBytes rBytes = Inr (?R @ scalarToBytes ?S)"
    by (rule sign_general [OF ok a nz(1) r nz(2)])
  moreover have "derivePublicKey C scalarBytes = Inr ?A"
    using a nz(1) by (auto simp: derivePublicKey_Inr)
  ultimately show ?thesis
    unfolding Let_def
    using lR scalarToBytes_length [OF S] scalarToBytes_value [OF S]
      verification_equation [OF ok, of ?r ?k ?a] fromHex_toRawBytes [OF ok]
    by simp
qed

lemma toScalar_zeros: "toScalar (replicate 32 0) = Inr 0"
proof -
  have "replicate 32 (0::byte) = 0 # replicate 31 0" by (simp add: numeral_eq_Suc)
  then show ?thesis using toScalar_small [of 0] by simp
qed

text \<open>With any library, a scalar or a nonce that reduces to zero ends in the exception.\<close>

lemma signWithScalar_zero:
  "toScalar scalarBytes = Inr 0 \<Longrightarrow>
     signWithScalar C message scalarBytes rBytes = Inl InvalidScalar"
  by (simp add: signWithScalar_def multiply_def)

lemma signWithScalar_zero_nonce:
  "toScalar scalarBytes = Inr a \<Longrightarrow> 0 < a \<Longrightarrow> toScalar rBytes = Inr 0 \<Longrightarrow>
     signWithScalar C message scalarBytes rBytes = Inl InvalidScalar"
  by (auto simp: signWithScalar_def multiply_def Let_def dest: toScalar_less)

text \<open>
  Claim C2 as stated, for every 32-byte scalar input, fails: on the 32 zero bytes the
  scalar is 0, the library's \<^verbatim>\<open>multiply\<close> throws, and no signature is returned.
\<close>

theorem signWithScalar_zero_scalar:
  "signWithScalar cyclic [] (replicate 32 0) (1 # replicate 31 0) = Inl InvalidScalar"
  by (simp add: signWithScalar_def toScalar_zeros multiply_def)


theorem signWithScalar_verifies_witness:
  "curve_ok cyclic \<and>
   0 < le_nat (2 # replicate 31 0) mod L \<and>
   0 < le_nat (3 # replicate 31 0) mod L \<and>
   (\<exists>sig. signWithScalar cyclic [] (2 # replicate 31 0) (3 # replicate 31 0) = Inr sig \<and>
      length sig = 64 \<and> take 32 sig = scalarToBytes 3 \<and> le_nat (drop 32 sig) < L)"
proof -
  have l: "length (2 # replicate 31 (0::byte)) = 32" "length (3 # replicate 31 (0::byte)) = 32"
    by simp_all
  have n: "0 < le_nat (2 # replicate 31 0) mod L" "0 < le_nat (3 # replicate 31 0) mod L"
    by (simp_all add: le_nat_small small_mod_L)
  have R: "toRawBytes cyclic (smul cyclic (BASE cyclic) (le_nat (3 # replicate 31 0) mod L)) =
           scalarToBytes 3"
    by (simp add: le_nat_small small_mod_L cyclic_smul_BASE cyclic_sel(4) Rep_Abs_zl small_less_L)
  show ?thesis
    using signWithScalar_verifies [OF cyclic_ok l n, of "[]"] cyclic_ok n R
    unfolding Let_def by (auto simp: L_pos)
qed

section \<open>Trial decryption\<close>

lemma bytesToHex_inj: "bytesToHex a = bytesToHex b \<Longrightarrow> a = b"
  by (metis hexToBytes_bytesToHex)


lemma attemptDecryption_unfold:
  "attemptDecryption C tx metaSk metaPk =
     (case parseStealthMemo (case extractMemo tx of None \<Rightarrow> [] | Some m \<Rightarrow> m) of
        None \<Rightarrow> Inr None
      | Some ephPk \<Rightarrow>
          andThen (computeSharedSecretAsRecipient C metaSk ephPk) (\<lambda>secret.
          andThen (deriveStealthPubkey C metaPk secret) (\<lambda>stealthPk.
            case findIndex (\<lambda>a. bytesToHex a = bytesToHex stealthPk) (accountKeys tx) of
              None \<Rightarrow> Inr None
            | Some idx \<Rightarrow>
                Inr (Some \<lparr>det_stealthAddress = accountKeys tx ! idx,
                           det_amount =
                             (if balanceAt (postBalancesOf tx) idx - balanceAt (preBalancesOf tx) idx > 0
                              then balanceAt (postBalancesOf tx) idx - balanceAt (preBalancesOf tx) idx
                              else 0),
                           det_ephemeralPk = ephPk\<rparr>))))"
  unfolding attemptDecryption_def Let_def ..



lemma balanced_with_meta:
  "meta tx = Some m \<Longrightarrow> idx < length (preBalances m) \<Longrightarrow> idx < length (postBalances m) \<Longrightarrow>
     balanceAt (postBalancesOf tx) idx - balanceAt (preBalancesOf tx) idx =
       postBalances m ! idx - preBalances m ! idx"
  by (simp add: balanceAt_def postBalancesOf_def preBalancesOf_def)


lemma scalarToBytes_inj: "a < 2 ^ 256 \<Longrightarrow> b < 2 ^ 256 \<Longrightarrow> scalarToBytes a = scalarToBytes b \<Longrightarrow> a = b"
  by (metis scalarToBytes_value)

lemma example_memo: "extractMemo example_tx = Some (generateStealthMemo (scalarToBytes 3))"
  by (simp add: extractMemo_def example_tx_def generateStealthMemo_def MEMO_PREFIX_def str_def)

lemma example_parse:
  "parseStealthMemo (generateStealthMemo (scalarToBytes 3)) = Some (scalarToBytes 3)"
  by (rule parse_generate) (simp add: scalarToBytes_length)

lemma example_index:
  "findIndex (\<lambda>a. bytesToHex a = bytesToHex (scalarToBytes 8)) (accountKeys example_tx) = Some 1"
proof -
  have "scalarToBytes 1 \<noteq> scalarToBytes 8"
    using scalarToBytes_inj [of 1 8] by auto
  then have "bytesToHex (scalarToBytes 1) \<noteq> bytesToHex (scalarToBytes 8)"
    using bytesToHex_inj by blast
  then show ?thesis by (simp add: example_tx_def)
qed

lemma example_detected:
  "attemptDecryption cyclic example_tx (2 # replicate 31 0) (scalarToBytes 2) =
     Inr (Some \<lparr>det_stealthAddress = scalarToBytes 8, det_amount = 40,
                det_ephemeralPk = scalarToBytes 3\<rparr>)"
proof -
  have "accountKeys example_tx ! 1 = scalarToBytes 8" by (simp add: example_tx_def)
  moreover have "balanceAt (postBalancesOf example_tx) 1 = 45"
    "balanceAt (preBalancesOf example_tx) 1 = 5"
    by (simp_all add: balanceAt_def postBalancesOf_def preBalancesOf_def example_tx_def)
  ultimately show ?thesis
    unfolding attemptDecryption_unfold
    by (simp add: example_memo example_parse cyclic_shared_recipient cyclic_stealth_pk
        example_index)
qed



section \<open>The scan and the withdrawal\<close>

lemma scanLoop_not_found:
  "getParsedTransaction conn s = Inr None \<Longrightarrow>
     scanLoop conn C metaSk metaPk (s # sigs) results = scanLoop conn C metaSk metaPk sigs results"
  by simp

lemma scanLoop_rejected:
  "getParsedTransaction conn s = Inl e \<Longrightarrow>
     scanLoop conn C metaSk metaPk (s # sigs) results = Inl e"
  by simp

lemma scanLoop_skip:
  assumes "getParsedTransaction conn s = Inr None"
  shows "scanLoop conn C metaSk metaPk (before @ s # after) results =
         scanLoop conn C metaSk metaPk (before @ after) results"
proof (induction before arbitrary: results)
  case Nil
  then show ?case using assms by simp
next
  case (Cons x before)
  show ?case
  proof (cases "getParsedTransaction conn x")
    case (Inl e)
    then show ?thesis by simp
  next
    case (Inr fetched)
    show ?thesis
    proof (cases fetched)
      case None
      then show ?thesis using Inr Cons.IH by simp
    next
      case (Some tx)
      show ?thesis
      proof (cases "attemptDecryption C tx metaSk metaPk")
        case (Inl e)
        then show ?thesis using Inr Some Cons.IH by (simp split: option.splits)
      next
        case det: (Inr detected)
        then show ?thesis using Inr Some Cons.IH by (simp split: option.splits)
      qed
    qed
  qed
qed

lemma scanLoop_abort:
  assumes "getParsedTransaction conn s = Inl e"
  shows "\<exists>e'. scanLoop conn C metaSk metaPk (before @ s # after) results = Inl e'"
proof (induction before arbitrary: results)
  case Nil
  then show ?case using assms by simp
next
  case (Cons x before)
  show ?case
  proof (cases "getParsedTransaction conn x")
    case (Inl e)
    then show ?thesis by simp
  next
    case (Inr fetched)
    show ?thesis
    proof (cases fetched)
      case None
      then show ?thesis using Inr Cons.IH by simp
    next
      case (Some tx)
      show ?thesis
      proof (cases "attemptDecryption C tx metaSk metaPk")
        case (Inl e)
        then show ?thesis using Inr Some Cons.IH by (simp split: option.splits)
      next
        case det: (Inr detected)
        then show ?thesis using Inr Some Cons.IH by (simp split: option.splits)
      qed
    qed
  qed
qed

text \<open>
  Claim C8, as amended. During a scan, a candidate whose fetch resolves to no transaction
  is skipped: the scan goes on and its outcome is that of the scan without this
  signature. A fetch that rejects is fatal to the scan call, which fails with an error,
  as it does, with the error of the connection, when the initial signature-list fetch
  fails.
\<close>

theorem scan_fetch_failures:
  "(getSignaturesForAddress conn limit = Inl e \<longrightarrow>
      scanForStealthTransfers conn C metaSk metaPk limit = Inl e) \<and>
   (getSignaturesForAddress conn limit = Inr (before @ s # after) \<and>
    getParsedTransaction conn s = Inr None \<longrightarrow>
      scanForStealthTransfers conn C metaSk metaPk limit =
        scanLoop conn C metaSk metaPk (before @ after) []) \<and>
   (getSignaturesForAddress conn limit = Inr (before @ s # after) \<and>
    getParsedTransaction conn s = Inl e \<longrightarrow>
      (\<exists>e'. scanForStealthTransfers conn C metaSk metaPk limit = Inl e'))"
  using scanLoop_skip [of conn s C metaSk metaPk before after "[]"]
    scanLoop_abort [of conn s e C metaSk metaPk before after "[]"]
  by (simp add: scanForStealthTransfers_def)

text \<open>
  Claim C8 as stated, a failure to fetch one candidate is not fatal and a result list is
  still returned, fails when the fetch rejects: nothing in the loop catches the rejection.
\<close>

theorem scan_rejected_fetch:
  "scanForStealthTransfers conn_rejecting cyclic (2 # replicate 31 0) (scalarToBytes 2) 100 =
     Inl FetchFailed"
  by (simp add: scanForStealthTransfers_def conn_rejecting_def)

lemma example_scan_rest:
  "scanLoop conn_not_found cyclic (2 # replicate 31 0) (scalarToBytes 2) [str ''sig2''] [] =
     Inr [\<lparr>signature = str ''sig2'', blockTime = Some 1700000000,
           stealthAddress = scalarToBytes 8, amount = 40, ephemeralPk = scalarToBytes 3\<rparr>]"
proof -
  have "getParsedTransaction conn_not_found (str ''sig2'') = Inr (Some example_tx)"
    by (simp add: conn_not_found_def)
  moreover have "tx_blockTime example_tx = Some 1700000000"
    by (simp add: example_tx_def)
  moreover have "startsWith (generateStealthMemo (scalarToBytes 3)) MEMO_PREFIX"
    by (simp add: generateStealthMemo_def startsWith_def)
  ultimately show ?thesis
    by (simp add: example_memo example_detected)
qed

theorem scan_fetch_failures_witness:
  "scanForStealthTransfers conn_down cyclic (2 # replicate 31 0) (scalarToBytes 2) 100 =
     Inl FetchFailed \<and>
   scanForStealthTransfers conn_not_found cyclic (2 # replicate 31 0) (scalarToBytes 2) 100 =
     Inr [\<lparr>signature = str ''sig2'', blockTime = Some 1700000000,
           stealthAddress = scalarToBytes 8, amount = 40, ephemeralPk = scalarToBytes 3\<rparr>] \<and>
   (\<exists>e'. scanForStealthTransfers conn_rejecting cyclic (2 # replicate 31 0) (scalarToBytes 2) 100 =
     Inl e')"
proof -
  have a: "getSignaturesForAddress conn_down 100 = Inl FetchFailed"
    by (simp add: conn_down_def)
  have b: "getSignaturesForAddress conn_not_found 100 = Inr ([] @ str ''sig1'' # [str ''sig2''])"
    "getParsedTransaction conn_not_found (str ''sig1'') = Inr None"
    by (simp_all add: conn_not_found_def str_def)
  have c: "getSignaturesForAddress conn_rejecting 100 = Inr ([] @ str ''sig1'' # [])"
    "getParsedTransaction conn_rejecting (str ''sig1'') = Inl FetchFailed"
    by (simp_all add: conn_rejecting_def)
  show ?thesis
    using scan_fetch_failures [of conn_down 100 FetchFailed cyclic "2 # replicate 31 0"
        "scalarToBytes 2" "[]" "[]" "[]"]
      scan_fetch_failures [of conn_not_found 100 FetchFailed cyclic "2 # replicate 31 0"
        "scalarToBytes 2" "[]" "str ''sig1''" "[str ''sig2'']"]
      scan_fetch_failures [of conn_rejecting 100 FetchFailed cyclic "2 # replicate 31 0"
        "scalarToBytes 2" "[]" "str ''sig1''" "[]"]
      a b c example_scan_rest
    by simp
qed

lemma prepareWithdraw_Inr:
  "prepareWithdraw C stealthTx metaSk metaPk = Inr w \<longleftrightarrow>
     (\<exists>secret sk. computeSharedSecretAsRecipient C metaSk (ephemeralPk stealthTx) = Inr secret \<and>
        recoverStealthSecretKey C metaSk secret = Inr sk \<and>
        w = \<lparr>signature = signature stealthTx, blockTime = blockTime stealthTx,
              stealthAddress = stealthAddress stealthTx, amount = amount stealthTx,
              ephemeralPk = ephemeralPk stealthTx, stealthSecretKey = sk\<rparr>)"
  by (auto simp: prepareWithdraw_def andThen_eq_Inr)

text \<open>
  Claim C10. \<^verbatim>\<open>prepareWithdraw\<close> returns a record whose signature, blockTime,
  stealthAddress, amount and ephemeralPk are those of the input, with exactly one field
  added, stealthSecretKey; the added field depends only on \<open>metaSk\<close> and the input's
  ephemeralPk (\<open>metaPk\<close> is not read).
\<close>

theorem prepareWithdraw_frame:
  assumes "prepareWithdraw C stealthTx metaSk metaPk = Inr w"
  shows "signature w = signature stealthTx \<and>
         blockTime w = blockTime stealthTx \<and>
         stealthAddress w = stealthAddress stealthTx \<and>
         amount w = amount stealthTx \<and>
         ephemeralPk w = ephemeralPk stealthTx \<and>
         StealthTransaction.truncate w = stealthTx \<and>
         (\<exists>secret. computeSharedSecretAsRecipient C metaSk (ephemeralPk stealthTx) = Inr secret \<and>
            recoverStealthSecretKey C metaSk secret = Inr (stealthSecretKey w)) \<and>
         (\<forall>stealthTx' metaPk' w'.
            ephemeralPk stealthTx' = ephemeralPk stealthTx \<and>
            prepareWithdraw C stealthTx' metaSk metaPk' = Inr w' \<longrightarrow>
            stealthSecretKey w' = stealthSecretKey w)"
  using assms
  by (auto simp: prepareWithdraw_Inr StealthTransaction.truncate_def)


lemma example_withdraw:
  "prepareWithdraw cyclic
     \<lparr>signature = str ''sig1'', blockTime = Some 1700000000, stealthAddress = scalarToBytes 8,
      amount = 40, ephemeralPk = scalarToBytes 3\<rparr>
     (2 # replicate 31 0) (scalarToBytes 2) =
   Inr \<lparr>signature = str ''sig1'', blockTime = Some 1700000000, stealthAddress = scalarToBytes 8,
        amount = 40, ephemeralPk = scalarToBytes 3, stealthSecretKey = scalarToBytes 8\<rparr>"
  by (simp add: prepareWithdraw_def cyclic_shared_recipient cyclic_stealth_sk)

theorem prepareWithdraw_frame_witness:
  "prepareWithdraw cyclic
     \<lparr>signature = str ''sig1'', blockTime = Some 1700000000, stealthAddress = scalarToBytes 8,
      amount = 40, ephemeralPk = scalarToBytes 3\<rparr>
     (2 # replicate 31 0) (scalarToBytes 2) =
   Inr \<lparr>signature = str ''sig1'', blockTime = Some 1700000000, stealthAddress = scalarToBytes 8,
        amount = 40, ephemeralPk = scalarToBytes 3, stealthSecretKey = scalarToBytes 8\<rparr> \<and>
   StealthTransaction.truncate
     \<lparr>signature = str ''sig1'', blockTime = Some 1700000000, stealthAddress = scalarToBytes 8,
      amount = 40, ephemeralPk = scalarToBytes 3, stealthSecretKey = scalarToBytes 8\<rparr> =
     \<lparr>signature = str ''sig1'', blockTime = Some 1700000000, stealthAddress = scalarToBytes 8,
      amount = 40, ephemeralPk = scalarToBytes 3\<rparr>"
  using prepareWithdraw_frame [OF example_withdraw] example_withdraw
  by simp

end
